theory Spec2Isabelle
  imports Complex_Main "HOL-Library.Word"
begin

section \<open>JavaScript strings\<close>

text \<open>
  A JavaScript string is a sequence of UTF-16 code units, and \<open>length\<close> counts code
  units.  String literals of the source are written through \<open>js\<close>, which maps an ASCII
  literal to its code units.
\<close>

type_synonym code_unit = "16 word"
type_synonym jsstring = "code_unit list"

definition js :: "string \<Rightarrow> jsstring" where
  "js s = map of_char s"

text \<open>
  The white space of \<open>String.prototype.trim\<close> and of the regular expression class
  \<open>\s\<close> (ECMAScript WhiteSpace and LineTerminator): TAB, LF, VT, FF, CR, SP, NBSP,
  U+1680, U+2000 to U+200A, U+2028, U+2029, U+202F, U+205F, U+3000 and U+FEFF.
\<close>

definition isWhiteSpace :: "code_unit \<Rightarrow> bool" where
  "isWhiteSpace c \<longleftrightarrow>
     c = 0x09 \<or> c = 0x0A \<or> c = 0x0B \<or> c = 0x0C \<or> c = 0x0D \<or> c = 0x20 \<or> c = 0xA0 \<or>
     c = 0x1680 \<or> (0x2000 \<le> c \<and> c \<le> 0x200A) \<or> c = 0x2028 \<or> c = 0x2029 \<or>
     c = 0x202F \<or> c = 0x205F \<or> c = 0x3000 \<or> c = 0xFEFF"

text \<open>\<open>s.trim()\<close>: white space removed at both ends.\<close>

definition trim :: "jsstring \<Rightarrow> jsstring" where
  "trim s = rev (dropWhile isWhiteSpace (rev (dropWhile isWhiteSpace s)))"

text \<open>\<open>s.split(sep)\<close> for a one-character separator: \<open>"".split("\n")\<close> is \<open>[""]\<close>.\<close>

fun splitOn :: "code_unit \<Rightarrow> jsstring \<Rightarrow> jsstring \<Rightarrow> jsstring list" where
  "splitOn sep cur [] = [rev cur]"
| "splitOn sep cur (c # cs) =
     (if c = sep then rev cur # splitOn sep [] cs else splitOn sep (c # cur) cs)"

text \<open>
  \<open>s.split(/\s+/)\<close>: the pieces between maximal runs of white space; a run at either
  end leaves an empty piece there.  \<open>cur\<close> is the piece being read, reversed.
\<close>

function splitWhitespace :: "jsstring \<Rightarrow> jsstring \<Rightarrow> jsstring list" where
  "splitWhitespace cur [] = [rev cur]"
| "splitWhitespace cur (c # cs) =
     (if isWhiteSpace c then rev cur # splitWhitespace [] (dropWhile isWhiteSpace cs)
      else splitWhitespace (c # cur) cs)"
  by pat_completeness auto
termination
  by (relation "measure (\<lambda>(cur, s). length s)")
     (auto simp: length_dropWhile_le less_Suc_eq_le)

text \<open>\<open>s.includes(sub)\<close>.\<close>

fun includesStr :: "jsstring \<Rightarrow> jsstring \<Rightarrow> bool" where
  "includesStr [] sub \<longleftrightarrow> sub = []"
| "includesStr (c # cs) sub \<longleftrightarrow>
     take (length sub) (c # cs) = sub \<or> includesStr cs sub"

text \<open>
  \<open>text.match(/\[illegible\]/gi)\<close>: the global scan for the eleven-character pattern,
  left to right, resuming after each match.  Without the \<open>u\<close> flag the \<open>i\<close> flag
  compares code units after upper-casing, and a code unit from 128 on never
  canonicalizes to an ASCII one, so against an ASCII pattern the comparison is the ASCII
  one.
\<close>

definition toUpperAscii :: "code_unit \<Rightarrow> code_unit" where
  "toUpperAscii c = (if 0x61 \<le> c \<and> c \<le> 0x7A then c - 0x20 else c)"

definition illegibleAt :: "jsstring \<Rightarrow> bool" where
  "illegibleAt s \<longleftrightarrow>
     map toUpperAscii (take 11 s) = map toUpperAscii (js ''[illegible]'')"

fun illegibleMatches :: "jsstring \<Rightarrow> nat" where
  "illegibleMatches [] = 0"
| "illegibleMatches (c # cs) =
     (if illegibleAt (c # cs) then Suc (illegibleMatches (drop 10 cs))
      else illegibleMatches cs)"


section \<open>The confidence estimator\<close>

text \<open>
  The source computes with binary64 numbers.  The model computes with exact rationals: a
  decimal literal stands for its decimal value and no operation rounds.  The steps, their
  order, the thresholds and the constants are those of the source.

  \<open>words\<close> is \<open>text.split(/\s+/).filter(Boolean)\<close>, \<open>lines\<close> is
  \<open>text.split("\n").filter((l) => l.trim().length > 0)\<close> and \<open>illegible\<close> is
  the number of matches of \<open>/\[illegible\]/gi\<close>.
\<close>

definition wordsOf :: "jsstring \<Rightarrow> jsstring list" where
  "wordsOf text = filter (\<lambda>w. w \<noteq> []) (splitWhitespace [] text)"

definition linesOf :: "jsstring \<Rightarrow> jsstring list" where
  "linesOf text = filter (\<lambda>l. length (trim l) > 0) (splitOn 0x0A [] text)"

definition calculateConfidence :: "jsstring \<Rightarrow> rat" where
  "calculateConfidence text =
     (if text = [] \<or> text = js ''No text detected'' \<or> length (trim text) = 0 then 0.05
      else
        let words = wordsOf text;
            lines = linesOf text;
            c = 0.25;
            c = (if length text > 40 then c + 0.15 else c);
            c = (if length text > 200 then c + 0.1 else c);
            c = (if length lines > 2 then c + 0.08 else c);
            c = (if length words > 20 then c + 0.07 else c);
            illegible = illegibleMatches text;
            c = (if illegible > 0
                 then c - min 0.2 ((of_nat illegible / of_nat (max (length words) 1)) * 0.5)
                 else c)
        in min 0.98 (max 0.05 c))"


section \<open>The extraction service\<close>

subsection \<open>The external model call\<close>

text \<open>
  What a rejected call can carry (\<open>err: any\<close>): an \<open>Error\<close> instance with its
  message, a thrown string, \<open>null\<close> or \<open>undefined\<close>.
\<close>

datatype jsvalue = ErrorObject jsstring | StringValue jsstring | NullValue | UndefinedValue

text \<open>Truthiness, as \<open>primaryErr || fallbackErr\<close> tests it.\<close>

fun truthy :: "jsvalue \<Rightarrow> bool" where
  "truthy (ErrorObject m) = True"
| "truthy (StringValue s) = (s \<noteq> [])"
| "truthy NullValue = False"
| "truthy UndefinedValue = False"

text \<open>\<open>typeof err?.message === "string" ? err.message : String(err)\<close>.\<close>

fun messageOf :: "jsvalue \<Rightarrow> jsstring" where
  "messageOf (ErrorObject m) = m"
| "messageOf (StringValue s) = s"
| "messageOf NullValue = js ''null''"
| "messageOf UndefinedValue = js ''undefined''"

text \<open>
  One call of \<open>generateText\<close> either resolves with a text (a string, or \<open>null\<close>,
  which the type \<open>string | null\<close> of the receiving variable allows) or rejects.  The
  hosted model is outside the program: it is a parameter \<open>svc\<close> that answers a call from
  the model identifier and the number of calls made before it in the request.  The state
  threaded through the service is the sequence of its effects so far: the calls made and
  the backoff waits, in milliseconds.  The fixed prompts, the temperature 0 and the token
  ceiling 7000 are the same in every call and are left out of the call event.
\<close>

datatype outcome = Resolved "jsstring option" | Rejected jsvalue

type_synonym service = "jsstring \<Rightarrow> nat \<Rightarrow> outcome"

datatype event = Call jsstring jsstring | Sleep nat

fun isCall :: "event \<Rightarrow> bool" where
  "isCall (Call modelId dataUrl) = True"
| "isCall (Sleep ms) = False"

definition callsMade :: "event list \<Rightarrow> nat" where
  "callsMade tr = length (filter isCall tr)"

definition generateText ::
  "service \<Rightarrow> jsstring \<Rightarrow> jsstring \<Rightarrow> event list \<Rightarrow> outcome \<times> event list" where
  "generateText svc modelId dataUrl tr =
     (svc modelId (callsMade tr), tr @ [Call modelId dataUrl])"

subsection \<open>Retries against one model\<close>

text \<open>
  The \<open>for\<close> loop of \<open>callModelWithRetries\<close>, from \<open>attempt\<close> on.  \<open>Inr\<close> is the
  returned text, \<open>Inl\<close> the value thrown after the loop.
\<close>

function callModelLoop ::
  "service \<Rightarrow> jsstring \<Rightarrow> jsstring \<Rightarrow> nat \<Rightarrow> nat \<Rightarrow> jsvalue \<Rightarrow> event list
     \<Rightarrow> (jsvalue + jsstring option) \<times> event list" where
  "callModelLoop svc dataUrl modelId maxAttempts attempt lastError tr =
     (if attempt \<le> maxAttempts then
        (case generateText svc modelId dataUrl tr of
           (Resolved text, tr') \<Rightarrow> (Inr text, tr')
         | (Rejected err, tr') \<Rightarrow>
             (let message = messageOf err in
              if includesStr message (js ''does not exist'')
                 \<or> includesStr message (js ''do not have access'')
              then (Inl err, tr')
              else callModelLoop svc dataUrl modelId maxAttempts (attempt + 1) err
                     (tr' @ [Sleep (300 * attempt)])))
      else (Inl lastError, tr))"
  by pat_completeness auto
termination
  by (relation "measure (\<lambda>(svc, dataUrl, modelId, maxAttempts, attempt, lastError, tr).
                  maxAttempts + 1 - attempt)") auto

declare callModelLoop.simps [simp del]

definition callModelWithRetries ::
  "service \<Rightarrow> jsstring \<Rightarrow> jsstring \<Rightarrow> nat \<Rightarrow> event list
     \<Rightarrow> (jsvalue + jsstring option) \<times> event list" where
  "callModelWithRetries svc dataUrl modelId maxAttempts tr =
     callModelLoop svc dataUrl modelId maxAttempts 1 NullValue tr"

subsection \<open>Primary model, then fallback\<close>

definition PRIMARY_MODEL :: jsstring where
  "PRIMARY_MODEL = js ''meta-llama/llama-4-maverick-17b-128e-instruct''"

definition FALLBACK_MODEL :: jsstring where
  "FALLBACK_MODEL = js ''meta-llama/llama-4-scout-17b-16e-instruct''"

text \<open>
  The inner \<open>try\<close>/\<open>catch\<close> of \<open>POST\<close>: the primary model with the default three
  attempts, on failure the fallback model, and \<open>throw primaryErr || fallbackErr\<close> when
  both fail.
\<close>

definition invokeModels ::
  "service \<Rightarrow> jsstring \<Rightarrow> event list \<Rightarrow> (jsvalue + jsstring option) \<times> event list" where
  "invokeModels svc dataUrl tr =
     (case callModelWithRetries svc dataUrl PRIMARY_MODEL 3 tr of
        (Inr text, tr1) \<Rightarrow> (Inr text, tr1)
      | (Inl primaryErr, tr1) \<Rightarrow>
          (case callModelWithRetries svc dataUrl FALLBACK_MODEL 3 tr1 of
             (Inr text, tr2) \<Rightarrow> (Inr text, tr2)
           | (Inl fallbackErr, tr2) \<Rightarrow>
               (Inl (if truthy primaryErr then primaryErr else fallbackErr), tr2)))"

subsection \<open>The route handler\<close>

text \<open>
  The parsed form field \<open>image\<close> is a file or absent (\<open>File | null\<close>).
  \<open>Buffer.from(bytes).toString("base64")\<close> is the RFC 4648 encoding with padding.
\<close>

record jsfile =
  file_name :: jsstring
  file_type :: jsstring
  file_bytes :: "8 word list"

definition base64Alphabet :: jsstring where
  "base64Alphabet =
     js ''ABCDEFGHIJKLMNOPQRSTUVWXYZabcdefghijklmnopqrstuvwxyz0123456789+/''"

definition sextet :: "nat \<Rightarrow> code_unit" where
  "sextet n = base64Alphabet ! (n mod 64)"

fun base64Encode :: "8 word list \<Rightarrow> jsstring" where
  "base64Encode (a # b # c # rest) =
     (let n = unat a * 65536 + unat b * 256 + unat c
      in sextet (n div 262144) # sextet (n div 4096) # sextet (n div 64) # sextet n
           # base64Encode rest)"
| "base64Encode [a, b] =
     (let n = unat a * 65536 + unat b * 256
      in [sextet (n div 262144), sextet (n div 4096), sextet (n div 64), 0x3D])"
| "base64Encode [a] =
     (let n = unat a * 65536
      in [sextet (n div 262144), sextet (n div 4096), 0x3D, 0x3D])"
| "base64Encode [] = []"

definition dataUrlOf :: "jsfile \<Rightarrow> jsstring" where
  "dataUrlOf img =
     (let base64 = base64Encode (file_bytes img);
          mimeType = (if file_type img = [] then js ''image/png'' else file_type img)
      in js ''data:'' @ mimeType @ js '';base64,'' @ base64)"

text \<open>
  A JSON response: its status and its body, which is either
  \<open>{text, confidence, success: true}\<close> or \<open>{error, details}\<close> (\<open>details\<close> absent in
  the 400 response).
\<close>

datatype body = Success jsstring rat | Failure jsstring "jsstring option"

record response =
  status :: nat
  body :: body

text \<open>The outer \<open>catch\<close>: status 500, with the message of an \<open>Error\<close> as details.\<close>

definition serverError :: "jsvalue \<Rightarrow> response" where
  "serverError error =
     \<lparr>status = 500,
      body = Failure (js ''Failed to extract text from image'')
               (Some (case error of ErrorObject m \<Rightarrow> m | _ \<Rightarrow> js ''Unknown error''))\<rparr>"

definition POST :: "service \<Rightarrow> jsfile option \<Rightarrow> response \<times> event list" where
  "POST svc imageField =
     (case imageField of
        None \<Rightarrow> (\<lparr>status = 400, body = Failure (js ''No image provided'') None\<rparr>, [])
      | Some img \<Rightarrow>
          (case invokeModels svc (dataUrlOf img) [] of
             (Inl error, tr) \<Rightarrow> (serverError error, tr)
           | (Inr text, tr) \<Rightarrow>
               (case text of
                  None \<Rightarrow> (serverError (ErrorObject (js ''Groq returned empty response'')), tr)
                | Some t \<Rightarrow>
                    if t = []
                    then (serverError (ErrorObject (js ''Groq returned empty response'')), tr)
                    else (let confidence = calculateConfidence t
                          in (\<lparr>status = 200, body = Success (trim t) confidence\<rparr>, tr)))))"


section \<open>The image normalizer\<close>

text \<open>
  \<open>Math.round\<close> rounds to the nearest integer, a half upwards.  A store into the
  \<open>Uint8ClampedArray\<close> of an \<open>ImageData\<close> clamps to 0..255 and rounds to the
  nearest integer, a half to the even one.
\<close>

definition mathRound :: "rat \<Rightarrow> int" where
  "mathRound x = \<lfloor>x + 1 / 2\<rfloor>"

definition toUint8Clamp :: "rat \<Rightarrow> 8 word" where
  "toUint8Clamp x =
     (if x \<le> 0 then 0
      else if 255 \<le> x then 255
      else let f = \<lfloor>x\<rfloor>
           in of_int (if x - of_int f < 1 / 2 then f
                      else if 1 / 2 < x - of_int f then f + 1
                      else if even f then f else f + 1))"

text \<open>
  The loop over the pixel data, four bytes (red, green, blue, alpha) at a step; the alpha
  byte is neither read nor written.  The data of an \<open>ImageData\<close> has a length that is
  a multiple of four; the equations for a rest of two bytes or one are what the loop does
  there, where a read beyond the end is \<open>undefined\<close>, the arithmetic gives \<open>NaN\<close>,
  stored as 0, and a store beyond the end is ignored.
\<close>

fun grayscaleContrast :: "8 word list \<Rightarrow> 8 word list" where
  "grayscaleContrast (r # g # b # rest) =
     (let contrast = 1.15;
          gray = 0.299 * of_nat (unat r) + 0.587 * of_nat (unat g) + 0.114 * of_nat (unat b);
          r' = (gray - 128) * contrast + 128;
          g' = (gray - 128) * contrast + 128;
          b' = (gray - 128) * contrast + 128
      in toUint8Clamp (max 0 (min 255 r')) # toUint8Clamp (max 0 (min 255 g'))
           # toUint8Clamp (max 0 (min 255 b'))
           # (case rest of [] \<Rightarrow> [] | a # rest' \<Rightarrow> a # grayscaleContrast rest'))"
| "grayscaleContrast [r, g] = [0, 0]"
| "grayscaleContrast [r] = [0]"
| "grayscaleContrast [] = []"

text \<open>
  \<open>preprocessToPngDataUrl\<close> on a decoded picture of \<open>naturalWidth\<close> by
  \<open>naturalHeight\<close> pixels.  \<open>drawn w h\<close> is the pixel data of the canvas after
  \<open>drawImage(img, 0, 0, w, h)\<close>, the browser's resampling of the picture.
  \<open>2000 / 0\<close> is \<open>Infinity\<close> in the source, so the scale of an empty picture is 1.
  \<open>getImageData\<close> throws an \<open>IndexSizeError\<close> when the width or the height asked
  for is zero; nothing catches it, and the promise is never resolved.  The result is the
  canvas that \<open>toDataURL\<close> encodes without loss.
\<close>

datatype dom_error = IndexSizeError

record canvas =
  canvas_width :: nat
  canvas_height :: nat
  canvas_data :: "8 word list"

definition scaleOf :: "nat \<Rightarrow> nat \<Rightarrow> rat" where
  "scaleOf naturalWidth naturalHeight =
     (let maxDim = 2000
      in if max naturalWidth naturalHeight = 0 then 1
         else min 1 (maxDim / of_nat (max naturalWidth naturalHeight)))"

definition preprocessToPngDataUrl ::
  "(nat \<Rightarrow> nat \<Rightarrow> 8 word list) \<Rightarrow> nat \<Rightarrow> nat \<Rightarrow> dom_error + canvas" where
  "preprocessToPngDataUrl drawn naturalWidth naturalHeight =
     (let scale = scaleOf naturalWidth naturalHeight;
          w = nat (mathRound (of_nat naturalWidth * scale));
          h = nat (mathRound (of_nat naturalHeight * scale))
      in if w = 0 \<or> h = 0 then Inl IndexSizeError
         else Inr \<lparr>canvas_width = w, canvas_height = h,
                   canvas_data = grayscaleContrast (drawn w h)\<rparr>)"


section \<open>The vocabulary of the specification\<close>

text \<open>
  The specification's words for the confidence estimator: the base score with its four
  increments, the penalty (the number of markers divided by the word count, times 0.5,
  capped at 0.20; nothing for a text without a marker), and the reference definition,
  which knows two inputs with the fixed floor: the empty text and the text
  \<open>No text detected\<close>.
\<close>

definition bonusScore :: "jsstring \<Rightarrow> rat" where
  "bonusScore text =
     0.25 + (if length text > 40 then 0.15 else 0) + (if length text > 200 then 0.10 else 0)
       + (if length (linesOf text) > 2 then 0.08 else 0)
       + (if length (wordsOf text) > 20 then 0.07 else 0)"

definition illegiblePenalty :: "jsstring \<Rightarrow> rat" where
  "illegiblePenalty text =
     (if illegibleMatches text = 0 then 0
      else min 0.20 (of_nat (illegibleMatches text) / of_nat (length (wordsOf text)) * 0.5))"

definition confidenceReference :: "jsstring \<Rightarrow> rat" where
  "confidenceReference text =
     (if text = [] \<or> text = js ''No text detected'' then 0.05
      else min 0.98 (max 0.05 (bonusScore text - illegiblePenalty text)))"

text \<open>The reference definition with a third input of the fixed floor: white space only.\<close>

definition confidenceBlankAware :: "jsstring \<Rightarrow> rat" where
  "confidenceBlankAware text =
     (if text = [] \<or> list_all isWhiteSpace text \<or> text = js ''No text detected'' then 0.05
      else min 0.98 (max 0.05 (bonusScore text - illegiblePenalty text)))"

text \<open>A permanent error is one whose message has one of the two substrings.\<close>

definition permanentError :: "jsvalue \<Rightarrow> bool" where
  "permanentError err \<longleftrightarrow>
     includesStr (messageOf err) (js ''does not exist'')
     \<or> includesStr (messageOf err) (js ''do not have access'')"

text \<open>The events of a trace that are calls of a given model.\<close>

definition callsOf :: "jsstring \<Rightarrow> event list \<Rightarrow> event list" where
  "callsOf modelId tr = filter (\<lambda>ev. case ev of Call m d \<Rightarrow> m = modelId | Sleep ms \<Rightarrow> False) tr"


section \<open>Concrete requests and services\<close>

definition pngFile :: jsfile where
  "pngFile = \<lparr>file_name = js ''scan.png'', file_type = js ''image/png'',
               file_bytes = [0x89, 0x50, 0x4E, 0x47]\<rparr>"

definition textFile :: jsfile where
  "textFile = \<lparr>file_name = js ''notes.txt'', file_type = js ''text/plain'',
                file_bytes = [0x68, 0x69]\<rparr>"

definition helloService :: service where
  "helloService modelId n = Resolved (Some (js ''hello''))"

definition emptyTextService :: service where
  "emptyTextService modelId n = Resolved (Some [])"

definition sentinelNewlineService :: service where
  "sentinelNewlineService modelId n = Resolved (Some (js ''No text detected\<newline>''))"

definition rateLimitError :: "nat \<Rightarrow> jsvalue" where
  "rateLimitError n = ErrorObject (js ''Rate limit reached on call '' @ [0x30 + of_nat n])"

definition rateLimitedService :: service where
  "rateLimitedService modelId n = Rejected (rateLimitError n)"

definition missingPrimaryService :: service where
  "missingPrimaryService modelId n =
     (if modelId = PRIMARY_MODEL
      then Rejected (ErrorObject (js ''The model does not exist''))
      else Resolved (Some (js ''hello'')))"


section \<open>Properties of the confidence estimator\<close>

subsection \<open>Blank texts, words and markers\<close>

lemma list_all_dropWhile: "list_all P (dropWhile P xs) \<longleftrightarrow> list_all P xs"
  by (induction xs) auto

lemma trim_empty_iff: "trim s = [] \<longleftrightarrow> list_all isWhiteSpace s"
proof -
  have "trim s = [] \<longleftrightarrow> list_all isWhiteSpace (dropWhile isWhiteSpace s)"
    by (simp add: trim_def list_all_iff)
  then show ?thesis by (simp add: list_all_dropWhile)
qed

lemma splitWhitespace_no_words:
  "filter (\<lambda>w. w \<noteq> []) (splitWhitespace cur s) = [] \<longleftrightarrow> cur = [] \<and> list_all isWhiteSpace s"
  by (induction cur s rule: splitWhitespace.induct) (auto simp: list_all_dropWhile)

lemma wordsOf_Nil_iff: "wordsOf text = [] \<longleftrightarrow> list_all isWhiteSpace text"
  by (simp add: wordsOf_def splitWhitespace_no_words)

lemma toUpperAscii_bracket: "toUpperAscii c = 0x5B \<Longrightarrow> c = 0x5B"
  unfolding toUpperAscii_def by (auto split: if_splits)

lemma illegibleAt_not_space: "illegibleAt (c # cs) \<Longrightarrow> \<not> isWhiteSpace c"
proof
  assume a: "illegibleAt (c # cs)" and w: "isWhiteSpace c"
  from a have "toUpperAscii c = 0x5B"
    by (simp add: illegibleAt_def js_def toUpperAscii_def)
  then have "c = 0x5B" by (rule toUpperAscii_bracket)
  with w show False by (simp add: isWhiteSpace_def)
qed

lemma illegible_not_blank: "0 < illegibleMatches text \<Longrightarrow> \<not> list_all isWhiteSpace text"
  by (induction "text" rule: illegibleMatches.induct) (auto split: if_splits dest: illegibleAt_not_space)

lemma illegible_words: "0 < illegibleMatches text \<Longrightarrow> 0 < length (wordsOf text)"
  using illegible_not_blank [of "text"] wordsOf_Nil_iff [of "text"] by auto

subsection \<open>The estimator in closed form\<close>

lemma bonusScore_bounds: "0.25 \<le> bonusScore text \<and> bonusScore text \<le> 0.65"
  by (simp add: bonusScore_def)

lemma illegiblePenalty_bounds: "0 \<le> illegiblePenalty text \<and> illegiblePenalty text \<le> 0.2"
proof (cases "illegibleMatches text = 0")
  case True
  then show ?thesis by (simp add: illegiblePenalty_def)
next
  case False
  define x :: rat
    where "x = of_nat (illegibleMatches text) / of_nat (length (wordsOf text)) * 0.5"
  have "0 \<le> x" unfolding x_def by simp
  then have "0 \<le> min 0.20 x \<and> min 0.20 x \<le> 0.2" unfolding min_def by auto
  with False show ?thesis unfolding illegiblePenalty_def x_def by simp
qed

lemma illegiblePenalty_none: "illegibleMatches text = 0 \<Longrightarrow> illegiblePenalty text = 0"
  by (simp add: illegiblePenalty_def)

lemma penalty_step:
  "(if 0 < illegibleMatches text
    then c - min 0.2 ((of_nat (illegibleMatches text) / of_nat (max (length (wordsOf text)) 1)) * 0.5)
    else c) = c - illegiblePenalty text"
proof (cases "illegibleMatches text = 0")
  case True
  then show ?thesis by (simp add: illegiblePenalty_def)
next
  case False
  then have "0 < length (wordsOf text)" by (intro illegible_words) simp
  then have "max (length (wordsOf text)) 1 = length (wordsOf text)"
    by (cases "wordsOf text") simp_all
  with False show ?thesis by (simp add: illegiblePenalty_def)
qed

lemma guard_step:
  "(text = [] \<or> text = js ''No text detected'' \<or> length (trim text) = 0) \<longleftrightarrow>
   (list_all isWhiteSpace text \<or> text = js ''No text detected'')"
  by (auto simp: trim_empty_iff)

lemma calculateConfidence_unfold:
  "calculateConfidence text =
     (if list_all isWhiteSpace text \<or> text = js ''No text detected'' then 0.05
      else min 0.98 (max 0.05 (bonusScore text - illegiblePenalty text)))"
  unfolding calculateConfidence_def Let_def guard_step penalty_step bonusScore_def
  by (cases "40 < length text"; cases "200 < length text"; cases "2 < length (linesOf text)";
      cases "20 < length (wordsOf text)") simp_all

lemma calculateConfidence_floor:
  "list_all isWhiteSpace text \<or> text = js ''No text detected''
     \<Longrightarrow> calculateConfidence text = 0.05"
  unfolding calculateConfidence_unfold by (rule if_P)

lemma calculateConfidence_score:
  "\<not> (list_all isWhiteSpace text \<or> text = js ''No text detected'')
     \<Longrightarrow> calculateConfidence text
           = min 0.98 (max 0.05 (bonusScore text - illegiblePenalty text))"
  unfolding calculateConfidence_unfold by (rule if_not_P)

lemma clamp_bounds: "0.05 \<le> min 0.98 (max 0.05 x) \<and> min 0.98 (max 0.05 x) \<le> (0.98::rat)"
  unfolding min_def max_def by auto

lemma clamp_mono: "x \<le> y \<Longrightarrow> min 0.98 (max 0.05 x) \<le> min 0.98 (max 0.05 (y::rat))"
  unfolding min_def max_def by auto

lemma clamp_le: "x \<le> 0.65 \<Longrightarrow> min 0.98 (max 0.05 x) \<le> (0.65::rat)"
  unfolding min_def max_def by auto

lemma calculateConfidence_bounds:
  "0.05 \<le> calculateConfidence text \<and> calculateConfidence text \<le> 0.98"
proof (cases "list_all isWhiteSpace text \<or> text = js ''No text detected''")
  case True
  show ?thesis unfolding calculateConfidence_floor [OF True] by simp
next
  case False
  show ?thesis unfolding calculateConfidence_score [OF False] by (rule clamp_bounds)
qed

lemma bonusScore_mono:
  assumes "length t1 \<le> length t2" "length (linesOf t1) \<le> length (linesOf t2)"
    "length (wordsOf t1) \<le> length (wordsOf t2)"
  shows "bonusScore t1 \<le> bonusScore t2"
proof -
  have a: "(if 40 < length t1 then 0.15 else 0 :: rat) \<le> (if 40 < length t2 then 0.15 else 0)"
    using assms(1) by simp
  have b: "(if 200 < length t1 then 0.10 else 0 :: rat) \<le> (if 200 < length t2 then 0.10 else 0)"
    using assms(1) by simp
  have c: "(if 2 < length (linesOf t1) then 0.08 else 0 :: rat)
             \<le> (if 2 < length (linesOf t2) then 0.08 else 0)"
    using assms(2) by simp
  have d: "(if 20 < length (wordsOf t1) then 0.07 else 0 :: rat)
             \<le> (if 20 < length (wordsOf t2) then 0.07 else 0)"
    using assms(3) by simp
  show ?thesis unfolding bonusScore_def using a b c d by linarith
qed

subsection \<open>The reference definition\<close>

text \<open>
  Claim C1, as stated, fails: on a text of white space only the estimator returns the
  floor 0.05, while the reference definition, which gives the floor to the empty text and
  to \<open>No text detected\<close> only, scores it from the base 0.25.
\<close>

theorem confidence_reference_counterexample:
  "calculateConfidence (js '' '') = 0.05 \<and> confidenceReference (js '' '') = 0.25
   \<and> calculateConfidence (js '' '') \<noteq> confidenceReference (js '' '')"
  by code_simp

text \<open>
  Claim C1, amended: on every text the estimator equals the reference definition extended
  by the third floor input, a text of white space only.  The constants and their order
  are those of the claim; the guard on a positive number of markers and the division by
  \<open>max(words.length, 1)\<close> of the source change nothing, since a text with a marker has
  a word.
\<close>

theorem confidence_refines_blank_aware:
  "calculateConfidence text = confidenceBlankAware text"
  by (auto simp: calculateConfidence_unfold confidenceBlankAware_def)

subsection \<open>Bounds and monotonicity\<close>

text \<open>
  Claim C10: on every text the estimator is at most 0.65, the base 0.25 plus the four
  increments, so the upper clamp 0.98 is never attained.
\<close>

theorem confidence_at_most_065:
  "calculateConfidence text \<le> 0.65 \<and> calculateConfidence text < 0.98"
proof -
  have "calculateConfidence text \<le> 0.65"
  proof (cases "list_all isWhiteSpace text \<or> text = js ''No text detected''")
    case True
    show ?thesis unfolding calculateConfidence_floor [OF True] by simp
  next
    case False
    have "bonusScore text - illegiblePenalty text \<le> 0.65"
      using bonusScore_bounds [of "text"] illegiblePenalty_bounds [of "text"] by linarith
    then have "min 0.98 (max 0.05 (bonusScore text - illegiblePenalty text)) \<le> 0.65"
      by (rule clamp_le)
    then show ?thesis unfolding calculateConfidence_score [OF False] .
  qed
  then show ?thesis by auto
qed

text \<open>
  Claim C5, as stated, fails at the sentinel: \<open>a\<close> is no longer than
  \<open>No text detected\<close>, has no more non-blank lines and no more words, neither has a
  marker, and yet its confidence 0.25 exceeds the sentinel's 0.05.
\<close>

theorem confidence_monotone_counterexample:
  "illegibleMatches (js ''a'') = 0 \<and> illegibleMatches (js ''No text detected'') = 0
   \<and> length (js ''a'') \<le> length (js ''No text detected'')
   \<and> length (linesOf (js ''a'')) \<le> length (linesOf (js ''No text detected''))
   \<and> length (wordsOf (js ''a'')) \<le> length (wordsOf (js ''No text detected''))
   \<and> \<not> calculateConfidence (js ''a'') \<le> calculateConfidence (js ''No text detected'')"
  by code_simp

text \<open>
  Claim C5, amended: for texts \<open>t1\<close>, \<open>t2\<close> without markers, where \<open>t2\<close> is not
  the sentinel \<open>No text detected\<close>, if the length, the number of non-blank lines and
  the number of words of \<open>t1\<close> are at most those of \<open>t2\<close>, then the confidence of
  \<open>t1\<close> is at most that of \<open>t2\<close>; and the confidence of every text lies between
  0.05 and 0.98.
\<close>

theorem confidence_monotone:
  "(illegibleMatches t1 = 0 \<and> illegibleMatches t2 = 0 \<and> length t1 \<le> length t2
      \<and> length (linesOf t1) \<le> length (linesOf t2)
      \<and> length (wordsOf t1) \<le> length (wordsOf t2)
      \<and> t2 \<noteq> js ''No text detected''
    \<longrightarrow> calculateConfidence t1 \<le> calculateConfidence t2)
   \<and> 0.05 \<le> calculateConfidence t \<and> calculateConfidence t \<le> 0.98"
proof (intro conjI impI)
  assume h: "illegibleMatches t1 = 0 \<and> illegibleMatches t2 = 0 \<and> length t1 \<le> length t2
      \<and> length (linesOf t1) \<le> length (linesOf t2)
      \<and> length (wordsOf t1) \<le> length (wordsOf t2)
      \<and> t2 \<noteq> js ''No text detected''"
  show "calculateConfidence t1 \<le> calculateConfidence t2"
  proof (cases "list_all isWhiteSpace t1 \<or> t1 = js ''No text detected''")
    case True
    show ?thesis unfolding calculateConfidence_floor [OF True]
      using calculateConfidence_bounds [of t2] by (rule conjunct1)
  next
    case False
    then have "wordsOf t1 \<noteq> []" by (simp add: wordsOf_Nil_iff)
    with h have "wordsOf t2 \<noteq> []" by auto
    with h have n2: "\<not> (list_all isWhiteSpace t2 \<or> t2 = js ''No text detected'')"
      by (simp add: wordsOf_Nil_iff)
    have "bonusScore t1 \<le> bonusScore t2" using h by (intro bonusScore_mono) simp_all
    moreover have "illegiblePenalty t1 = 0" "illegiblePenalty t2 = 0"
      using h by (simp_all add: illegiblePenalty_none)
    ultimately have "bonusScore t1 - illegiblePenalty t1 \<le> bonusScore t2 - illegiblePenalty t2"
      by simp
    then have "min 0.98 (max 0.05 (bonusScore t1 - illegiblePenalty t1))
                 \<le> min 0.98 (max 0.05 (bonusScore t2 - illegiblePenalty t2))"
      by (rule clamp_mono)
    then show ?thesis
      unfolding calculateConfidence_score [OF False] calculateConfidence_score [OF n2] .
  qed
next
  show "0.05 \<le> calculateConfidence t" using calculateConfidence_bounds [of t] by (rule conjunct1)
next
  show "calculateConfidence t \<le> 0.98" using calculateConfidence_bounds [of t] by (rule conjunct2)
qed

theorem confidence_monotone_witness:
  "illegibleMatches (js ''hello'') = 0
   \<and> illegibleMatches (js ''hello, this text is longer than forty characters'') = 0
   \<and> length (js ''hello'') \<le> length (js ''hello, this text is longer than forty characters'')
   \<and> length (linesOf (js ''hello''))
         \<le> length (linesOf (js ''hello, this text is longer than forty characters''))
   \<and> length (wordsOf (js ''hello''))
         \<le> length (wordsOf (js ''hello, this text is longer than forty characters''))
   \<and> js ''hello, this text is longer than forty characters'' \<noteq> js ''No text detected''
   \<and> calculateConfidence (js ''hello'')
         \<le> calculateConfidence (js ''hello, this text is longer than forty characters'')
   \<and> calculateConfidence (js ''hello'') = 0.25
   \<and> calculateConfidence (js ''hello, this text is longer than forty characters'') = 0.4"
proof -
  have h: "illegibleMatches (js ''hello'') = 0
   \<and> illegibleMatches (js ''hello, this text is longer than forty characters'') = 0
   \<and> length (js ''hello'') \<le> length (js ''hello, this text is longer than forty characters'')
   \<and> length (linesOf (js ''hello''))
         \<le> length (linesOf (js ''hello, this text is longer than forty characters''))
   \<and> length (wordsOf (js ''hello''))
         \<le> length (wordsOf (js ''hello, this text is longer than forty characters''))
   \<and> js ''hello, this text is longer than forty characters'' \<noteq> js ''No text detected''"
    by code_simp
  have v: "calculateConfidence (js ''hello'') = 0.25
   \<and> calculateConfidence (js ''hello, this text is longer than forty characters'') = 0.4"
    by code_simp
  from h v confidence_monotone
         [of "js ''hello''" "js ''hello, this text is longer than forty characters''"]
  show ?thesis by blast
qed


subsection \<open>The penalty for illegible markers\<close>

lemma sentinel_no_marker: "illegibleMatches (js ''No text detected'') = 0"
  by code_simp

lemma illegiblePenalty_mono:
  assumes "illegibleMatches t1 \<le> illegibleMatches t2"
    and "length (wordsOf t1) = length (wordsOf t2)"
  shows "illegiblePenalty t1 \<le> illegiblePenalty t2"
proof -
  have "(of_nat (illegibleMatches t1) :: rat) \<le> of_nat (illegibleMatches t2)"
    using assms(1) by simp
  then have "(of_nat (illegibleMatches t1) :: rat) / of_nat (length (wordsOf t2))
               \<le> of_nat (illegibleMatches t2) / of_nat (length (wordsOf t2))"
    by (rule divide_right_mono) simp
  then have "(of_nat (illegibleMatches t1) :: rat) / of_nat (length (wordsOf t2)) * 0.5
               \<le> of_nat (illegibleMatches t2) / of_nat (length (wordsOf t2)) * 0.5"
    by (rule mult_right_mono) simp
  then have m: "min 0.20 ((of_nat (illegibleMatches t1) :: rat) / of_nat (length (wordsOf t2)) * 0.5)
               \<le> min 0.20 (of_nat (illegibleMatches t2) / of_nat (length (wordsOf t2)) * 0.5)"
    by (rule min.mono [OF order_refl])
  show ?thesis
  proof (cases "illegibleMatches t1 = 0")
    case True
    then have "illegiblePenalty t1 = 0" by (simp add: illegiblePenalty_def)
    then show ?thesis using illegiblePenalty_bounds [of t2] by simp
  next
    case False
    with assms(1) have "illegibleMatches t2 \<noteq> 0" by simp
    with False m show ?thesis by (simp only: illegiblePenalty_def assms(2) if_False)
  qed
qed

lemma bonusScore_cong:
  "length t1 = length t2 \<Longrightarrow> length (linesOf t1) = length (linesOf t2) \<Longrightarrow>
   length (wordsOf t1) = length (wordsOf t2) \<Longrightarrow> bonusScore t1 = bonusScore t2"
  by (simp add: bonusScore_def)

lemma marked_not_floor:
  assumes "0 < illegibleMatches t"
  shows "\<not> (list_all isWhiteSpace t \<or> t = js ''No text detected'')"
  using assms illegible_not_blank [of t] sentinel_no_marker by auto

text \<open>
  Claim C6, as stated, fails: with the word count alone held fixed, the text with more
  markers can have more non-blank lines (or more characters) and so a higher confidence.
  Both texts below have three words; the second has two markers instead of one and three
  lines instead of one, and its confidence 0.13 exceeds the first's 1/12.
\<close>

theorem illegible_penalty_counterexample:
  "0 < illegibleMatches (js ''[illegible] a b'')
   \<and> illegibleMatches (js ''[illegible] a b'')
       < illegibleMatches (js ''[illegible]\<newline>[illegible]\<newline>a'')
   \<and> length (wordsOf (js ''[illegible] a b''))
       = length (wordsOf (js ''[illegible]\<newline>[illegible]\<newline>a''))
   \<and> calculateConfidence (js ''[illegible] a b'') = 1 / 12
   \<and> calculateConfidence (js ''[illegible]\<newline>[illegible]\<newline>a'') = 0.13
   \<and> \<not> calculateConfidence (js ''[illegible]\<newline>[illegible]\<newline>a'')
         \<le> calculateConfidence (js ''[illegible] a b'')"
  by code_simp

text \<open>
  Claim C6, amended: for texts with a marker, with the word count, the length and the
  number of non-blank lines held fixed, more case-insensitive occurrences of
  \<open>[illegible]\<close> never give a higher confidence; the confidence is never below 0.05;
  and the penalty subtracted from the base score with its increments is the number of
  occurrences divided by the word count (which is positive), times 0.5, capped at 0.20.
\<close>

theorem illegible_penalty_monotone:
  "(0 < illegibleMatches t1 \<and> illegibleMatches t1 \<le> illegibleMatches t2
      \<and> length (wordsOf t1) = length (wordsOf t2) \<and> length t1 = length t2
      \<and> length (linesOf t1) = length (linesOf t2)
    \<longrightarrow> calculateConfidence t2 \<le> calculateConfidence t1)
   \<and> 0.05 \<le> calculateConfidence t
   \<and> (0 < illegibleMatches t
        \<longrightarrow> 0 < length (wordsOf t)
          \<and> calculateConfidence t
             = min 0.98 (max 0.05 (bonusScore t
                 - min 0.20 (of_nat (illegibleMatches t) / of_nat (length (wordsOf t)) * 0.5))))"
proof (intro conjI impI)
  assume h: "0 < illegibleMatches t1 \<and> illegibleMatches t1 \<le> illegibleMatches t2
      \<and> length (wordsOf t1) = length (wordsOf t2) \<and> length t1 = length t2
      \<and> length (linesOf t1) = length (linesOf t2)"
  then have n1: "\<not> (list_all isWhiteSpace t1 \<or> t1 = js ''No text detected'')"
    by (intro marked_not_floor) simp
  from h have "0 < illegibleMatches t2" by simp
  then have n2: "\<not> (list_all isWhiteSpace t2 \<or> t2 = js ''No text detected'')"
    by (rule marked_not_floor)
  have b: "bonusScore t1 = bonusScore t2" using h by (intro bonusScore_cong) simp_all
  have "illegiblePenalty t1 \<le> illegiblePenalty t2" using h by (intro illegiblePenalty_mono) simp_all
  with b have "bonusScore t2 - illegiblePenalty t2 \<le> bonusScore t1 - illegiblePenalty t1"
    by simp
  then have "min 0.98 (max 0.05 (bonusScore t2 - illegiblePenalty t2))
               \<le> min 0.98 (max 0.05 (bonusScore t1 - illegiblePenalty t1))"
    by (rule clamp_mono)
  then show "calculateConfidence t2 \<le> calculateConfidence t1"
    unfolding calculateConfidence_score [OF n1] calculateConfidence_score [OF n2] .
next
  show "0.05 \<le> calculateConfidence t" using calculateConfidence_bounds [of t] by (rule conjunct1)
next
  assume "0 < illegibleMatches t"
  then show "0 < length (wordsOf t)" by (rule illegible_words)
next
  assume m: "0 < illegibleMatches t"
  then have p: "illegiblePenalty t
      = min 0.20 (of_nat (illegibleMatches t) / of_nat (length (wordsOf t)) * 0.5)"
    by (simp add: illegiblePenalty_def)
  from m have "\<not> (list_all isWhiteSpace t \<or> t = js ''No text detected'')"
    by (rule marked_not_floor)
  then show "calculateConfidence t
             = min 0.98 (max 0.05 (bonusScore t
                 - min 0.20 (of_nat (illegibleMatches t) / of_nat (length (wordsOf t)) * 0.5)))"
    unfolding p [symmetric] by (rule calculateConfidence_score)
qed

theorem illegible_penalty_monotone_witness:
  "0 < illegibleMatches (js ''[illegible] aaaaaaaaaaa b'')
   \<and> illegibleMatches (js ''[illegible] aaaaaaaaaaa b'')
       \<le> illegibleMatches (js ''[illegible] [ILLEGIBLE] b'')
   \<and> length (wordsOf (js ''[illegible] aaaaaaaaaaa b''))
       = length (wordsOf (js ''[illegible] [ILLEGIBLE] b''))
   \<and> length (js ''[illegible] aaaaaaaaaaa b'') = length (js ''[illegible] [ILLEGIBLE] b'')
   \<and> length (linesOf (js ''[illegible] aaaaaaaaaaa b''))
       = length (linesOf (js ''[illegible] [ILLEGIBLE] b''))
   \<and> calculateConfidence (js ''[illegible] [ILLEGIBLE] b'')
       \<le> calculateConfidence (js ''[illegible] aaaaaaaaaaa b'')
   \<and> calculateConfidence (js ''[illegible] [ILLEGIBLE] b'') = 0.05
   \<and> calculateConfidence (js ''[illegible] aaaaaaaaaaa b'') = 1 / 12"
proof -
  have h: "0 < illegibleMatches (js ''[illegible] aaaaaaaaaaa b'')
   \<and> illegibleMatches (js ''[illegible] aaaaaaaaaaa b'')
       \<le> illegibleMatches (js ''[illegible] [ILLEGIBLE] b'')
   \<and> length (wordsOf (js ''[illegible] aaaaaaaaaaa b''))
       = length (wordsOf (js ''[illegible] [ILLEGIBLE] b''))
   \<and> length (js ''[illegible] aaaaaaaaaaa b'') = length (js ''[illegible] [ILLEGIBLE] b'')
   \<and> length (linesOf (js ''[illegible] aaaaaaaaaaa b''))
       = length (linesOf (js ''[illegible] [ILLEGIBLE] b''))"
    by code_simp
  have v: "calculateConfidence (js ''[illegible] [ILLEGIBLE] b'') = 0.05
   \<and> calculateConfidence (js ''[illegible] aaaaaaaaaaa b'') = 1 / 12"
    by code_simp
  from illegible_penalty_monotone
         [of "js ''[illegible] aaaaaaaaaaa b''" "js ''[illegible] [ILLEGIBLE] b''"] h v
  show ?thesis by blast
qed


section \<open>Properties of the model invoker and the route handler\<close>


subsection \<open>One step of the retry loop\<close>

lemma callsMade_simps:
  "callsMade [] = 0"
  "callsMade (tr @ [Call m d]) = Suc (callsMade tr)"
  "callsMade (tr @ [Sleep ms]) = callsMade tr"
  "callsMade (Call m d # tr) = Suc (callsMade tr)"
  "callsMade (Sleep ms # tr) = callsMade tr"
  by (simp_all add: callsMade_def)

lemma loop_resolved:
  "attempt \<le> maxAttempts \<Longrightarrow> svc modelId (callsMade tr) = Resolved t \<Longrightarrow>
   callModelLoop svc dataUrl modelId maxAttempts attempt lastError tr
     = (Inr t, tr @ [Call modelId dataUrl])"
  by (subst callModelLoop.simps) (simp add: generateText_def)

lemma loop_permanent:
  "attempt \<le> maxAttempts \<Longrightarrow> svc modelId (callsMade tr) = Rejected err \<Longrightarrow>
   permanentError err \<Longrightarrow>
   callModelLoop svc dataUrl modelId maxAttempts attempt lastError tr
     = (Inl err, tr @ [Call modelId dataUrl])"
  by (subst callModelLoop.simps) (simp add: generateText_def permanentError_def)

lemma loop_transient:
  "attempt \<le> maxAttempts \<Longrightarrow> svc modelId (callsMade tr) = Rejected err \<Longrightarrow>
   \<not> permanentError err \<Longrightarrow>
   callModelLoop svc dataUrl modelId maxAttempts attempt lastError tr
     = callModelLoop svc dataUrl modelId maxAttempts (attempt + 1) err
         (tr @ [Call modelId dataUrl, Sleep (300 * attempt)])"
  by (subst callModelLoop.simps) (simp add: generateText_def permanentError_def)

lemma loop_exhausted:
  "maxAttempts < attempt \<Longrightarrow>
   callModelLoop svc dataUrl modelId maxAttempts attempt lastError tr = (Inl lastError, tr)"
  by (subst callModelLoop.simps) simp

lemma three_transient:
  assumes "callsMade tr = n"
    "svc modelId n = Rejected e1" "\<not> permanentError e1"
    "svc modelId (Suc n) = Rejected e2" "\<not> permanentError e2"
    "svc modelId (Suc (Suc n)) = Rejected e3" "\<not> permanentError e3"
  shows "callModelWithRetries svc dataUrl modelId 3 tr
           = (Inl e3, tr @ [Call modelId dataUrl, Sleep 300, Call modelId dataUrl, Sleep 600,
                            Call modelId dataUrl, Sleep 900])"
proof -
  let ?c = "Call modelId dataUrl"
  let ?t1 = "tr @ [?c, Sleep (300 * 1)]"
  let ?t2 = "?t1 @ [?c, Sleep (300 * (1 + 1))]"
  let ?t3 = "?t2 @ [?c, Sleep (300 * (1 + 1 + 1))]"
  have s1: "callModelLoop svc dataUrl modelId 3 1 NullValue tr
              = callModelLoop svc dataUrl modelId 3 (1 + 1) e1 ?t1"
    by (rule loop_transient) (use assms in simp_all)
  have s2: "callModelLoop svc dataUrl modelId 3 (1 + 1) e1 ?t1
              = callModelLoop svc dataUrl modelId 3 (1 + 1 + 1) e2 ?t2"
    by (rule loop_transient) (use assms in \<open>simp_all add: callsMade_def\<close>)
  have s3: "callModelLoop svc dataUrl modelId 3 (1 + 1 + 1) e2 ?t2
              = callModelLoop svc dataUrl modelId 3 (1 + 1 + 1 + 1) e3 ?t3"
    by (rule loop_transient) (use assms in \<open>simp_all add: callsMade_def numeral_2_eq_2\<close>)
  have s4: "callModelLoop svc dataUrl modelId 3 (1 + 1 + 1 + 1) e3 ?t3 = (Inl e3, ?t3)"
    by (rule loop_exhausted) simp
  show ?thesis unfolding callModelWithRetries_def s1 s2 s3 s4 by simp
qed

lemma models_distinct: "PRIMARY_MODEL \<noteq> FALLBACK_MODEL"
  by (simp add: PRIMARY_MODEL_def FALLBACK_MODEL_def js_def)

text \<open>What a run of the retry loop adds to the trace: calls of its own model and waits.\<close>

lemma loop_trace:
  "\<exists>rest. snd (callModelLoop svc dataUrl modelId maxAttempts attempt lastError tr) = tr @ rest
     \<and> (other \<noteq> modelId \<longrightarrow> callsOf other rest = [])
     \<and> (attempt \<le> maxAttempts \<longrightarrow> take 1 rest = [Call modelId dataUrl])"
proof (induction svc dataUrl modelId maxAttempts attempt lastError tr
       rule: callModelLoop.induct)
  case (1 svc dataUrl modelId maxAttempts attempt lastError tr)
  show ?case
  proof (cases "attempt \<le> maxAttempts")
    case False
    then show ?thesis by (simp add: loop_exhausted callsOf_def)
  next
    case le: True
    show ?thesis
    proof (cases "svc modelId (callsMade tr)")
      case (Resolved t)
      with le show ?thesis by (simp add: loop_resolved callsOf_def)
    next
      case (Rejected err)
      show ?thesis
      proof (cases "permanentError err")
        case True
        with le Rejected show ?thesis by (simp add: loop_permanent callsOf_def)
      next
        case False
        from le Rejected False
        have step: "callModelLoop svc dataUrl modelId maxAttempts attempt lastError tr
              = callModelLoop svc dataUrl modelId maxAttempts (attempt + 1) err
                  (tr @ [Call modelId dataUrl, Sleep (300 * attempt)])"
          by (rule loop_transient)
        from False have np: "\<not> (includesStr (messageOf err) (js ''does not exist'')
                \<or> includesStr (messageOf err) (js ''do not have access''))"
          by (simp add: permanentError_def)
        have "\<exists>rest. snd (callModelLoop svc dataUrl modelId maxAttempts (attempt + 1) err
                  ((tr @ [Call modelId dataUrl]) @ [Sleep (300 * attempt)]))
                = ((tr @ [Call modelId dataUrl]) @ [Sleep (300 * attempt)]) @ rest
              \<and> (other \<noteq> modelId \<longrightarrow> callsOf other rest = [])"
          using "1.IH" [of "Rejected err" "tr @ [Call modelId dataUrl]" err "messageOf err"]
            le np Rejected by (simp add: generateText_def) blast
        then obtain rest where
          r: "snd (callModelLoop svc dataUrl modelId maxAttempts (attempt + 1) err
                  (tr @ [Call modelId dataUrl, Sleep (300 * attempt)]))
                = tr @ [Call modelId dataUrl, Sleep (300 * attempt)] @ rest"
          and c: "other \<noteq> modelId \<longrightarrow> callsOf other rest = []"
          by auto
        have "snd (callModelLoop svc dataUrl modelId maxAttempts attempt lastError tr)
                = tr @ ([Call modelId dataUrl, Sleep (300 * attempt)] @ rest)
              \<and> (other \<noteq> modelId
                    \<longrightarrow> callsOf other ([Call modelId dataUrl, Sleep (300 * attempt)] @ rest) = [])
              \<and> (attempt \<le> maxAttempts
                    \<longrightarrow> take 1 ([Call modelId dataUrl, Sleep (300 * attempt)] @ rest)
                          = [Call modelId dataUrl])"
          using r c unfolding step by (simp add: callsOf_def)
        then show ?thesis by (rule exI)
      qed
    qed
  qed
qed

lemma retries_trace:
  "\<exists>rest. snd (callModelWithRetries svc dataUrl modelId 3 tr) = tr @ Call modelId dataUrl # rest
     \<and> (other \<noteq> modelId \<longrightarrow> callsOf other rest = [])"
proof -
  obtain rest where
    r: "snd (callModelWithRetries svc dataUrl modelId 3 tr) = tr @ rest"
    and c: "other \<noteq> modelId \<longrightarrow> callsOf other rest = []"
    and t: "take 1 rest = [Call modelId dataUrl]"
    using loop_trace [of svc dataUrl modelId 3 1 NullValue tr other]
    unfolding callModelWithRetries_def by auto
  from t obtain rest' where e: "rest = Call modelId dataUrl # rest'"
    by (cases rest) auto
  with c have "other \<noteq> modelId \<longrightarrow> callsOf other rest' = []"
    by (auto simp: callsOf_def)
  with r e show ?thesis by auto
qed

lemma invoke_trace:
  "\<exists>rest. snd (invokeModels svc dataUrl []) = Call PRIMARY_MODEL dataUrl # rest"
proof -
  obtain rest where
    r: "snd (callModelWithRetries svc dataUrl PRIMARY_MODEL 3 [])
          = [] @ Call PRIMARY_MODEL dataUrl # rest"
    using retries_trace [of svc dataUrl PRIMARY_MODEL "[]" PRIMARY_MODEL] by auto
  obtain rest2 where
    r2: "snd (callModelWithRetries svc dataUrl FALLBACK_MODEL 3 (Call PRIMARY_MODEL dataUrl # rest))
          = (Call PRIMARY_MODEL dataUrl # rest) @ Call FALLBACK_MODEL dataUrl # rest2"
    using retries_trace [of svc dataUrl FALLBACK_MODEL "Call PRIMARY_MODEL dataUrl # rest"
                            FALLBACK_MODEL] by auto
  show ?thesis
    using r r2 unfolding invokeModels_def
    by (auto split: prod.splits sum.splits)
qed

lemma POST_trace: "snd (POST svc (Some img)) = snd (invokeModels svc (dataUrlOf img) [])"
  unfolding POST_def by (simp split: prod.splits sum.splits option.splits)

lemma invoke_first_resolved:
  assumes "svc PRIMARY_MODEL 0 = Resolved t"
  shows "invokeModels svc dataUrl [] = (Inr t, [Call PRIMARY_MODEL dataUrl])"
proof -
  have "callModelWithRetries svc dataUrl PRIMARY_MODEL 3 []
          = (Inr t, [] @ [Call PRIMARY_MODEL dataUrl])"
    unfolding callModelWithRetries_def
    by (rule loop_resolved) (use assms in \<open>simp_all add: callsMade_def\<close>)
  then show ?thesis by (simp add: invokeModels_def)
qed

lemma POST_first_empty:
  assumes "svc PRIMARY_MODEL 0 = Resolved t" and "t = None \<or> t = Some []"
  shows "POST svc (Some img)
           = (\<lparr>status = 500,
               body = Failure (js ''Failed to extract text from image'')
                        (Some (js ''Groq returned empty response''))\<rparr>,
              [Call PRIMARY_MODEL (dataUrlOf img)])"
  unfolding POST_def invoke_first_resolved [where svc = svc and t = t, OF assms(1)]
  using assms(2) by (auto simp: serverError_def)

lemma POST_first_text:
  assumes "svc PRIMARY_MODEL 0 = Resolved (Some t)" and "t \<noteq> []"
  shows "POST svc (Some img)
           = (\<lparr>status = 200, body = Success (trim t) (calculateConfidence t)\<rparr>,
              [Call PRIMARY_MODEL (dataUrlOf img)])"
  unfolding POST_def invoke_first_resolved [where svc = svc and t = "Some t", OF assms(1)]
  using assms(2) by simp

lemma pngFile_dataUrl: "dataUrlOf pngFile = js ''data:image/png;base64,iVBORw==''"
  by (simp add: dataUrlOf_def pngFile_def sextet_def base64Alphabet_def js_def Let_def)

lemma textFile_dataUrl: "dataUrlOf textFile = js ''data:text/plain;base64,aGk=''"
  by (simp add: dataUrlOf_def textFile_def sextet_def base64Alphabet_def js_def Let_def)


subsection \<open>Transient and permanent failures\<close>

text \<open>
  Claim C2: when the three attempts against the primary model (calls 0, 1, 2 of the
  request) and the three attempts against the fallback model (calls 3, 4, 5) all reject
  with an error that has no permanent-error substring, the invoker makes exactly these six
  calls, each followed by its backoff wait of 300, 600 and 900 ms, and throws the primary
  model's last error; it throws the fallback's last error only when the primary's is not
  a truthy value.  The route handler answers with that error.
\<close>

theorem all_attempts_transient:
  assumes "svc PRIMARY_MODEL 0 = Rejected p1" "svc PRIMARY_MODEL 1 = Rejected p2"
    "svc PRIMARY_MODEL 2 = Rejected p3"
    "svc FALLBACK_MODEL 3 = Rejected f1" "svc FALLBACK_MODEL 4 = Rejected f2"
    "svc FALLBACK_MODEL 5 = Rejected f3"
    "\<not> permanentError p1" "\<not> permanentError p2" "\<not> permanentError p3"
    "\<not> permanentError f1" "\<not> permanentError f2" "\<not> permanentError f3"
  shows "invokeModels svc dataUrl []
           = (Inl (if truthy p3 then p3 else f3),
              [Call PRIMARY_MODEL dataUrl, Sleep 300, Call PRIMARY_MODEL dataUrl, Sleep 600,
               Call PRIMARY_MODEL dataUrl, Sleep 900,
               Call FALLBACK_MODEL dataUrl, Sleep 300, Call FALLBACK_MODEL dataUrl, Sleep 600,
               Call FALLBACK_MODEL dataUrl, Sleep 900])
     \<and> callsMade (snd (invokeModels svc dataUrl [])) = 6
     \<and> fst (POST svc (Some img)) = serverError (if truthy p3 then p3 else f3)"
proof -
  have inv: "invokeModels svc dataUrl []
           = (Inl (if truthy p3 then p3 else f3),
              [Call PRIMARY_MODEL dataUrl, Sleep 300, Call PRIMARY_MODEL dataUrl, Sleep 600,
               Call PRIMARY_MODEL dataUrl, Sleep 900,
               Call FALLBACK_MODEL dataUrl, Sleep 300, Call FALLBACK_MODEL dataUrl, Sleep 600,
               Call FALLBACK_MODEL dataUrl, Sleep 900])" for dataUrl
  proof -
    let ?p = "Call PRIMARY_MODEL dataUrl"
    let ?f = "Call FALLBACK_MODEL dataUrl"
    let ?tr1 = "[] @ [?p, Sleep 300, ?p, Sleep 600, ?p, Sleep 900]"
    have 1: "callModelWithRetries svc dataUrl PRIMARY_MODEL 3 [] = (Inl p3, ?tr1)"
      by (rule three_transient [where n = 0 and ?e1.0 = p1 and ?e2.0 = p2])
         (use assms in \<open>simp_all add: callsMade_def numeral_2_eq_2\<close>)
    have 2: "callModelWithRetries svc dataUrl FALLBACK_MODEL 3 ?tr1
               = (Inl f3, ?tr1 @ [?f, Sleep 300, ?f, Sleep 600, ?f, Sleep 900])"
      by (rule three_transient [where n = 3 and ?e1.0 = f1 and ?e2.0 = f2])
         (use assms in \<open>simp_all add: callsMade_def\<close>)
    note 1 [simplified] 2 [simplified]
    then show ?thesis by (simp add: invokeModels_def)
  qed
  have six: "callsMade (snd (invokeModels svc dataUrl [])) = 6"
    unfolding inv by (simp add: callsMade_def)
  have "fst (POST svc (Some img)) = serverError (if truthy p3 then p3 else f3)"
    unfolding POST_def inv by simp
  with inv six show ?thesis by blast
qed

theorem all_attempts_transient_witness:
  "rateLimitedService PRIMARY_MODEL 0 = Rejected (rateLimitError 0)
   \<and> rateLimitedService PRIMARY_MODEL 1 = Rejected (rateLimitError 1)
   \<and> rateLimitedService PRIMARY_MODEL 2 = Rejected (rateLimitError 2)
   \<and> rateLimitedService FALLBACK_MODEL 3 = Rejected (rateLimitError 3)
   \<and> rateLimitedService FALLBACK_MODEL 4 = Rejected (rateLimitError 4)
   \<and> rateLimitedService FALLBACK_MODEL 5 = Rejected (rateLimitError 5)
   \<and> \<not> permanentError (rateLimitError 0) \<and> \<not> permanentError (rateLimitError 1)
   \<and> \<not> permanentError (rateLimitError 2) \<and> \<not> permanentError (rateLimitError 3)
   \<and> \<not> permanentError (rateLimitError 4) \<and> \<not> permanentError (rateLimitError 5)
   \<and> invokeModels rateLimitedService (dataUrlOf pngFile) []
       = (Inl (rateLimitError 2),
          [Call PRIMARY_MODEL (dataUrlOf pngFile), Sleep 300,
           Call PRIMARY_MODEL (dataUrlOf pngFile), Sleep 600,
           Call PRIMARY_MODEL (dataUrlOf pngFile), Sleep 900,
           Call FALLBACK_MODEL (dataUrlOf pngFile), Sleep 300,
           Call FALLBACK_MODEL (dataUrlOf pngFile), Sleep 600,
           Call FALLBACK_MODEL (dataUrlOf pngFile), Sleep 900])
   \<and> callsMade (snd (invokeModels rateLimitedService (dataUrlOf pngFile) [])) = 6
   \<and> fst (POST rateLimitedService (Some pngFile))
       = \<lparr>status = 500,
          body = Failure (js ''Failed to extract text from image'')
                   (Some (js ''Rate limit reached on call 2''))\<rparr>"
proof -
  have s: "rateLimitedService m n = Rejected (rateLimitError n)" for m n
    by (simp add: rateLimitedService_def)
  have t0: "\<not> permanentError (rateLimitError 0)" by code_simp
  have t1: "\<not> permanentError (rateLimitError 1)" by code_simp
  have t2: "\<not> permanentError (rateLimitError 2)" by code_simp
  have t3: "\<not> permanentError (rateLimitError 3)" by code_simp
  have t4: "\<not> permanentError (rateLimitError 4)" by code_simp
  have t5: "\<not> permanentError (rateLimitError 5)" by code_simp
  have tr: "truthy (rateLimitError 2)" by (simp add: rateLimitError_def)
  have e: "serverError (rateLimitError 2)
             = \<lparr>status = 500,
                body = Failure (js ''Failed to extract text from image'')
                         (Some (js ''Rate limit reached on call 2''))\<rparr>"
    by code_simp
  from all_attempts_transient
         [where svc = rateLimitedService and dataUrl = "dataUrlOf pngFile" and img = pngFile
            and ?p1.0 = "rateLimitError 0" and ?p2.0 = "rateLimitError 1"
            and ?p3.0 = "rateLimitError 2" and ?f1.0 = "rateLimitError 3"
            and ?f2.0 = "rateLimitError 4" and ?f3.0 = "rateLimitError 5",
          OF s s s s s s t0 t1 t2 t3 t4 t5]
  show ?thesis unfolding if_P [OF tr] e using s t0 t1 t2 t3 t4 t5 by blast
qed

text \<open>
  Claim C3: when the first attempt against the primary model rejects with an error whose
  message contains \<open>does not exist\<close> or \<open>do not have access\<close>, the retry loop of
  the primary model ends after that one call, without a wait, and the invoker goes on
  with the retry loop of the fallback model: the trace begins with the primary call
  followed at once by a fallback call, and has no other primary call.
\<close>

theorem permanent_primary_error:
  assumes "svc PRIMARY_MODEL 0 = Rejected e" and "permanentError e"
  shows "callModelWithRetries svc dataUrl PRIMARY_MODEL 3 [] = (Inl e, [Call PRIMARY_MODEL dataUrl])
     \<and> snd (invokeModels svc dataUrl [])
         = snd (callModelWithRetries svc dataUrl FALLBACK_MODEL 3 [Call PRIMARY_MODEL dataUrl])
     \<and> take 2 (snd (invokeModels svc dataUrl []))
         = [Call PRIMARY_MODEL dataUrl, Call FALLBACK_MODEL dataUrl]
     \<and> length (callsOf PRIMARY_MODEL (snd (invokeModels svc dataUrl []))) = 1"
proof -
  have 1: "callModelWithRetries svc dataUrl PRIMARY_MODEL 3 []
             = (Inl e, [] @ [Call PRIMARY_MODEL dataUrl])"
    unfolding callModelWithRetries_def
    by (rule loop_permanent) (use assms in \<open>simp_all add: callsMade_def\<close>)
  then have first: "callModelWithRetries svc dataUrl PRIMARY_MODEL 3 []
             = (Inl e, [Call PRIMARY_MODEL dataUrl])" by simp
  have 2: "snd (invokeModels svc dataUrl [])
         = snd (callModelWithRetries svc dataUrl FALLBACK_MODEL 3 [Call PRIMARY_MODEL dataUrl])"
    unfolding invokeModels_def first by (simp split: prod.splits sum.splits)
  obtain rest where
    r: "snd (callModelWithRetries svc dataUrl FALLBACK_MODEL 3 [Call PRIMARY_MODEL dataUrl])
          = [Call PRIMARY_MODEL dataUrl] @ Call FALLBACK_MODEL dataUrl # rest"
    and c: "callsOf PRIMARY_MODEL rest = []"
    using retries_trace [of svc dataUrl FALLBACK_MODEL "[Call PRIMARY_MODEL dataUrl]"
                            PRIMARY_MODEL] models_distinct by auto
  have 3: "take 2 (snd (invokeModels svc dataUrl []))
         = [Call PRIMARY_MODEL dataUrl, Call FALLBACK_MODEL dataUrl]"
    unfolding 2 r by simp
  have 4: "length (callsOf PRIMARY_MODEL (snd (invokeModels svc dataUrl []))) = 1"
    unfolding 2 r using c models_distinct by (simp add: callsOf_def)
  from first 2 3 4 show ?thesis by blast
qed

theorem permanent_primary_error_witness:
  "missingPrimaryService PRIMARY_MODEL 0 = Rejected (ErrorObject (js ''The model does not exist''))
   \<and> permanentError (ErrorObject (js ''The model does not exist''))
   \<and> callModelWithRetries missingPrimaryService (dataUrlOf pngFile) PRIMARY_MODEL 3 []
       = (Inl (ErrorObject (js ''The model does not exist'')),
          [Call PRIMARY_MODEL (dataUrlOf pngFile)])
   \<and> take 2 (snd (invokeModels missingPrimaryService (dataUrlOf pngFile) []))
       = [Call PRIMARY_MODEL (dataUrlOf pngFile), Call FALLBACK_MODEL (dataUrlOf pngFile)]
   \<and> length (callsOf PRIMARY_MODEL (snd (invokeModels missingPrimaryService (dataUrlOf pngFile) [])))
       = 1"
proof -
  have h1: "missingPrimaryService PRIMARY_MODEL 0
              = Rejected (ErrorObject (js ''The model does not exist''))"
    by (simp add: missingPrimaryService_def)
  have h2: "permanentError (ErrorObject (js ''The model does not exist''))"
    by code_simp
  from permanent_primary_error
         [where svc = missingPrimaryService and dataUrl = "dataUrlOf pngFile"
            and e = "ErrorObject (js ''The model does not exist'')", OF h1 h2] h1 h2
  show ?thesis by blast
qed


subsection \<open>Empty texts\<close>

text \<open>
  Claim C4, as stated, fails: a primary model that resolves its first call with the empty
  text is called once; there is no retry and no call of the fallback model, and the
  request fails with status 500.
\<close>

theorem empty_text_counterexample:
  "emptyTextService PRIMARY_MODEL 0 = Resolved (Some [])
   \<and> POST emptyTextService (Some pngFile)
       = (\<lparr>status = 500,
           body = Failure (js ''Failed to extract text from image'')
                    (Some (js ''Groq returned empty response''))\<rparr>,
          [Call PRIMARY_MODEL (js ''data:image/png;base64,iVBORw=='')])
   \<and> callsOf FALLBACK_MODEL (snd (POST emptyTextService (Some pngFile))) = []"
proof -
  have h: "emptyTextService PRIMARY_MODEL 0 = Resolved (Some [])"
    by (simp add: emptyTextService_def)
  have p: "POST emptyTextService (Some pngFile)
       = (\<lparr>status = 500,
           body = Failure (js ''Failed to extract text from image'')
                    (Some (js ''Groq returned empty response''))\<rparr>,
          [Call PRIMARY_MODEL (js ''data:image/png;base64,iVBORw=='')])"
    using POST_first_empty [where svc = emptyTextService and t = "Some []" and img = pngFile, OF h]
    unfolding pngFile_dataUrl by simp
  have "callsOf FALLBACK_MODEL (snd (POST emptyTextService (Some pngFile))) = []"
    unfolding p using models_distinct by (simp add: callsOf_def)
  with h p show ?thesis by blast
qed

text \<open>
  Claim C4, amended: an empty or null text resolved by a model call is returned by the
  retry loop like any other text: a resolved call ends the loop at once with its text,
  and a text returned for the primary model ends the invocation without a call of the
  fallback model (in particular, an empty text from the first call of the primary model
  leaves that call the only one).  The route handler then answers 500 with the details
  \<open>Groq returned empty response\<close>, so an empty or null model text is never answered
  as a success.
\<close>

theorem empty_text_fails_request:
  "(attempt \<le> maxAttempts \<and> svc modelId (callsMade tr) = Resolved t \<longrightarrow>
      callModelLoop svc dataUrl modelId maxAttempts attempt lastError tr
        = (Inr t, tr @ [Call modelId dataUrl]))
   \<and> (callModelWithRetries svc dataUrl PRIMARY_MODEL 3 [] = (Inr t, tr1) \<longrightarrow>
        invokeModels svc dataUrl [] = (Inr t, tr1))
   \<and> (svc PRIMARY_MODEL 0 = Resolved t \<and> (t = None \<or> t = Some []) \<longrightarrow>
      POST svc (Some img)
        = (\<lparr>status = 500,
            body = Failure (js ''Failed to extract text from image'')
                     (Some (js ''Groq returned empty response''))\<rparr>,
           [Call PRIMARY_MODEL (dataUrlOf img)]))
   \<and> (fst (invokeModels svc (dataUrlOf img) []) = Inr t \<and> (t = None \<or> t = Some []) \<longrightarrow>
        fst (POST svc (Some img))
          = \<lparr>status = 500,
             body = Failure (js ''Failed to extract text from image'')
                      (Some (js ''Groq returned empty response''))\<rparr>)"
proof (intro conjI impI)
  assume "attempt \<le> maxAttempts \<and> svc modelId (callsMade tr) = Resolved t"
  then show "callModelLoop svc dataUrl modelId maxAttempts attempt lastError tr
        = (Inr t, tr @ [Call modelId dataUrl])"
    by (intro loop_resolved) simp_all
next
  assume "callModelWithRetries svc dataUrl PRIMARY_MODEL 3 [] = (Inr t, tr1)"
  then show "invokeModels svc dataUrl [] = (Inr t, tr1)"
    by (simp add: invokeModels_def)
next
  assume h: "svc PRIMARY_MODEL 0 = Resolved t \<and> (t = None \<or> t = Some [])"
  then have a: "svc PRIMARY_MODEL 0 = Resolved t" and b: "t = None \<or> t = Some []"
    by simp_all
  show "POST svc (Some img)
        = (\<lparr>status = 500,
            body = Failure (js ''Failed to extract text from image'')
                     (Some (js ''Groq returned empty response''))\<rparr>,
           [Call PRIMARY_MODEL (dataUrlOf img)])"
    by (rule POST_first_empty [where svc = svc and t = t, OF a b])
next
  assume h: "fst (invokeModels svc (dataUrlOf img) []) = Inr t \<and> (t = None \<or> t = Some [])"
  then show "fst (POST svc (Some img))
          = \<lparr>status = 500,
             body = Failure (js ''Failed to extract text from image'')
                      (Some (js ''Groq returned empty response''))\<rparr>"
    by (cases "invokeModels svc (dataUrlOf img) []") (auto simp: POST_def serverError_def)
qed

theorem empty_text_fails_request_witness:
  "emptyTextService PRIMARY_MODEL 0 = Resolved (Some [])
   \<and> callModelLoop emptyTextService (dataUrlOf pngFile) PRIMARY_MODEL 3 1 NullValue []
       = (Inr (Some []), [Call PRIMARY_MODEL (dataUrlOf pngFile)])
   \<and> invokeModels emptyTextService (dataUrlOf pngFile) []
       = (Inr (Some []), [Call PRIMARY_MODEL (dataUrlOf pngFile)])
   \<and> fst (invokeModels emptyTextService (dataUrlOf pngFile) []) = Inr (Some [])
   \<and> POST emptyTextService (Some pngFile)
        = (\<lparr>status = 500,
            body = Failure (js ''Failed to extract text from image'')
                     (Some (js ''Groq returned empty response''))\<rparr>,
           [Call PRIMARY_MODEL (dataUrlOf pngFile)])"
proof -
  have h1: "emptyTextService PRIMARY_MODEL 0 = Resolved (Some [])"
    by (simp add: emptyTextService_def)
  have h2: "fst (invokeModels emptyTextService (dataUrlOf pngFile) []) = Inr (Some [])"
    by (simp add: invoke_first_resolved [where svc = emptyTextService and t = "Some []", OF h1])
  have h0: "(1::nat) \<le> 3 \<and> emptyTextService PRIMARY_MODEL (callsMade []) = Resolved (Some [])"
    by (simp add: emptyTextService_def)
  note inst = empty_text_fails_request
         [where svc = emptyTextService and t = "Some []" and img = pngFile
            and attempt = 1 and maxAttempts = 3 and modelId = PRIMARY_MODEL and tr = "[]"
            and dataUrl = "dataUrlOf pngFile" and lastError = NullValue
            and ?tr1.0 = "[Call PRIMARY_MODEL (dataUrlOf pngFile)]"]
  from inst h0
  have l: "callModelLoop emptyTextService (dataUrlOf pngFile) PRIMARY_MODEL 3 1 NullValue []
             = (Inr (Some []), [Call PRIMARY_MODEL (dataUrlOf pngFile)])"
    by simp
  then have r: "callModelWithRetries emptyTextService (dataUrlOf pngFile) PRIMARY_MODEL 3 []
             = (Inr (Some []), [Call PRIMARY_MODEL (dataUrlOf pngFile)])"
    by (simp add: callModelWithRetries_def)
  from inst r
  have i: "invokeModels emptyTextService (dataUrlOf pngFile) []
             = (Inr (Some []), [Call PRIMARY_MODEL (dataUrlOf pngFile)])"
    by blast
  from inst h1 h2 l i show ?thesis by blast
qed


subsection \<open>The success response\<close>

text \<open>
  Claim C7, as stated, fails: the confidence is computed on the text as the model
  returned it, before trimming.  For the model text \<open>No text detected\<close> followed by
  a line feed the response carries the trimmed text \<open>No text detected\<close> with the
  confidence 0.25, while the confidence of the trimmed text is 0.05.
\<close>

theorem success_response_counterexample:
  "sentinelNewlineService PRIMARY_MODEL 0 = Resolved (Some (js ''No text detected\<newline>''))
   \<and> fst (POST sentinelNewlineService (Some pngFile))
       = \<lparr>status = 200, body = Success (js ''No text detected'') 0.25\<rparr>
   \<and> trim (js ''No text detected\<newline>'') = js ''No text detected''
   \<and> calculateConfidence (trim (js ''No text detected\<newline>'')) = 0.05"
proof -
  have h: "sentinelNewlineService PRIMARY_MODEL 0
             = Resolved (Some (js ''No text detected\<newline>''))"
    by (simp add: sentinelNewlineService_def)
  have n: "js ''No text detected\<newline>'' \<noteq> []" by (simp add: js_def)
  have t: "trim (js ''No text detected\<newline>'') = js ''No text detected''" by code_simp
  have c: "calculateConfidence (js ''No text detected\<newline>'') = 0.25" by code_simp
  have c': "calculateConfidence (js ''No text detected'') = 0.05" by code_simp
  from POST_first_text [where svc = sentinelNewlineService
                          and t = "js ''No text detected\<newline>''" and img = pngFile, OF h n]
  have "fst (POST sentinelNewlineService (Some pngFile))
          = \<lparr>status = 200, body = Success (js ''No text detected'') 0.25\<rparr>"
    unfolding t c by simp
  with h t c' show ?thesis by simp
qed

text \<open>
  Claim C7, amended: every request that ends in success got a non-empty text \<open>t\<close> from
  the invoker, and its response body is \<open>{success: true, text: t.trim(), confidence}\<close>
  where the confidence is computed on the untrimmed \<open>t\<close>.
\<close>

theorem success_response:
  assumes "status (fst (POST svc imageField)) = 200"
  shows "\<exists>img t. imageField = Some img
           \<and> fst (invokeModels svc (dataUrlOf img) []) = Inr (Some t) \<and> t \<noteq> []
           \<and> fst (POST svc imageField)
               = \<lparr>status = 200, body = Success (trim t) (calculateConfidence t)\<rparr>"
proof (cases imageField)
  case None
  with assms show ?thesis by (simp add: POST_def)
next
  case (Some img)
  obtain r tr where i: "invokeModels svc (dataUrlOf img) [] = (r, tr)"
    by (cases "invokeModels svc (dataUrlOf img) []")
  show ?thesis
  proof (cases r)
    case (Inl err)
    with assms Some i show ?thesis by (simp add: POST_def serverError_def)
  next
    case (Inr mt)
    show ?thesis
    proof (cases mt)
      case None
      with assms Some i Inr show ?thesis by (simp add: POST_def serverError_def)
    next
      case st: (Some t)
      with assms Some i Inr show ?thesis
        by (cases "t = []") (simp_all add: POST_def serverError_def)
    qed
  qed
qed

theorem success_response_witness:
  "status (fst (POST helloService (Some pngFile))) = 200
   \<and> (\<exists>img t. Some pngFile = Some img
           \<and> fst (invokeModels helloService (dataUrlOf img) []) = Inr (Some t) \<and> t \<noteq> []
           \<and> fst (POST helloService (Some pngFile))
               = \<lparr>status = 200, body = Success (trim t) (calculateConfidence t)\<rparr>)"
proof -
  have s: "helloService PRIMARY_MODEL 0 = Resolved (Some (js ''hello''))"
    by (simp add: helloService_def)
  have n: "js ''hello'' \<noteq> []" by (simp add: js_def)
  have h: "status (fst (POST helloService (Some pngFile))) = 200"
    by (simp add: POST_first_text [where svc = helloService and t = "js ''hello''", OF s n])
  from success_response [OF h] h show ?thesis by blast
qed


subsection \<open>Input validation\<close>

text \<open>
  Claim C8, as stated, fails: a request whose image field is a file of type
  \<open>text/plain\<close> is not rejected; the primary model is called with the data URL of that
  type and the request succeeds.
\<close>

theorem mime_type_counterexample:
  "file_type textFile = js ''text/plain''
   \<and> POST helloService (Some textFile)
       = (\<lparr>status = 200, body = Success (js ''hello'') 0.25\<rparr>,
          [Call PRIMARY_MODEL (js ''data:text/plain;base64,aGk='')])"
proof -
  have s: "helloService PRIMARY_MODEL 0 = Resolved (Some (js ''hello''))"
    by (simp add: helloService_def)
  have n: "js ''hello'' \<noteq> []" by (simp add: js_def)
  have t: "trim (js ''hello'') = js ''hello''" by code_simp
  have c: "calculateConfidence (js ''hello'') = 0.25" by code_simp
  have f: "file_type textFile = js ''text/plain''" by (simp add: textFile_def)
  from POST_first_text [where svc = helloService and t = "js ''hello''" and img = textFile,
                        OF s n] f
  show ?thesis unfolding t c textFile_dataUrl by simp
qed

text \<open>
  Claim C8, amended: the service validates only that an image field is present, answering
  400 \<open>No image provided\<close> without a model call when it is absent.  The declared MIME
  type of a supplied image is not validated: an empty type is replaced by
  \<open>image/png\<close>, any other type is embedded as it is in the data URL, the primary
  model is called with that data URL, and the answer is never 400.
\<close>

theorem mime_type_not_validated:
  "take 1 (snd (POST svc (Some img)))
     = [Call PRIMARY_MODEL
          (js ''data:'' @ (if file_type img = [] then js ''image/png'' else file_type img)
             @ js '';base64,'' @ base64Encode (file_bytes img))]
   \<and> status (fst (POST svc (Some img))) \<noteq> 400
   \<and> POST svc None = (\<lparr>status = 400, body = Failure (js ''No image provided'') None\<rparr>, [])"
proof (intro conjI)
  obtain rest where "snd (invokeModels svc (dataUrlOf img) [])
                       = Call PRIMARY_MODEL (dataUrlOf img) # rest"
    using invoke_trace [of svc "dataUrlOf img"] by auto
  then show "take 1 (snd (POST svc (Some img)))
     = [Call PRIMARY_MODEL
          (js ''data:'' @ (if file_type img = [] then js ''image/png'' else file_type img)
             @ js '';base64,'' @ base64Encode (file_bytes img))]"
    unfolding POST_trace by (simp add: dataUrlOf_def Let_def)
next
  show "status (fst (POST svc (Some img))) \<noteq> 400"
    unfolding POST_def
    by (simp add: serverError_def Let_def split: prod.splits sum.splits option.splits)
next
  show "POST svc None = (\<lparr>status = 400, body = Failure (js ''No image provided'') None\<rparr>, [])"
    by (simp add: POST_def)
qed

theorem mime_type_not_validated_witness:
  "take 1 (snd (POST rateLimitedService (Some textFile)))
     = [Call PRIMARY_MODEL (js ''data:text/plain;base64,aGk='')]
   \<and> status (fst (POST rateLimitedService (Some textFile))) \<noteq> 400"
proof -
  have e: "js ''data:'' @ (if file_type textFile = [] then js ''image/png''
                           else file_type textFile)
             @ js '';base64,'' @ base64Encode (file_bytes textFile)
           = js ''data:text/plain;base64,aGk=''"
    by (simp add: textFile_def sextet_def base64Alphabet_def js_def Let_def)
  from mime_type_not_validated [of rateLimitedService textFile, unfolded e]
  show ?thesis by blast
qed


section \<open>Properties of the image normalizer\<close>

lemma mathRound_of_int: "mathRound (of_int k) = k"
  unfolding mathRound_def by linarith

lemma mathRound_near: "\<bar>of_int (mathRound x) - x\<bar> \<le> 1 / 2"
  unfolding mathRound_def by linarith

lemma mathRound_mono: "x \<le> y \<Longrightarrow> mathRound x \<le> mathRound y"
  unfolding mathRound_def by (simp add: floor_mono)

lemma scaleOf_large:
  "2000 < max naturalWidth naturalHeight \<Longrightarrow>
   scaleOf naturalWidth naturalHeight = 2000 / of_nat (max naturalWidth naturalHeight)"
  unfolding scaleOf_def Let_def by (auto simp: min_def field_simps)

lemma scaleOf_small:
  "max naturalWidth naturalHeight \<le> 2000 \<Longrightarrow> scaleOf naturalWidth naturalHeight = 1"
  unfolding scaleOf_def Let_def by (auto simp: min_def field_simps)

lemma scaled_larger:
  assumes "2000 < max nw nh"
  shows "mathRound (of_nat (max nw nh) * scaleOf nw nh) = 2000"
proof -
  from assms have "max nw nh \<noteq> 0" by linarith
  then have "(of_nat (max nw nh) :: rat) \<noteq> 0" by (simp only: of_nat_eq_0_iff not_False_eq_True)
  then have "of_nat (max nw nh) * scaleOf nw nh = (of_int 2000 :: rat)"
    unfolding scaleOf_large [OF assms] by simp
  then show ?thesis by (simp only: mathRound_of_int)
qed

lemma scaled_le:
  assumes "2000 < max nw nh" and "n \<le> max nw nh"
  shows "mathRound (of_nat n * scaleOf nw nh) \<le> 2000"
proof -
  have "0 \<le> scaleOf nw nh" using assms(1) by (simp add: scaleOf_large)
  then have "of_nat n * scaleOf nw nh \<le> of_nat (max nw nh) * scaleOf nw nh"
    using assms(2) by (intro mult_right_mono) simp_all
  then have "mathRound (of_nat n * scaleOf nw nh)
               \<le> mathRound (of_nat (max nw nh) * scaleOf nw nh)"
    by (rule mathRound_mono)
  then show ?thesis using scaled_larger [OF assms(1)] by simp
qed

lemma preprocess_Inr:
  assumes "preprocessToPngDataUrl drawn nw nh = Inr c"
  shows "0 < mathRound (of_nat nw * scaleOf nw nh) \<and> 0 < mathRound (of_nat nh * scaleOf nw nh)
     \<and> c = \<lparr>canvas_width = nat (mathRound (of_nat nw * scaleOf nw nh)),
             canvas_height = nat (mathRound (of_nat nh * scaleOf nw nh)),
             canvas_data = grayscaleContrast
               (drawn (nat (mathRound (of_nat nw * scaleOf nw nh)))
                      (nat (mathRound (of_nat nh * scaleOf nw nh))))\<rparr>"
proof (cases "nat (mathRound (of_nat nw * scaleOf nw nh)) = 0
              \<or> nat (mathRound (of_nat nh * scaleOf nw nh)) = 0")
  case True
  with assms show ?thesis unfolding preprocessToPngDataUrl_def Let_def by simp
next
  case False
  then have p: "0 < mathRound (of_nat nw * scaleOf nw nh)"
    "0 < mathRound (of_nat nh * scaleOf nw nh)" by simp_all
  from assms False have "c = \<lparr>canvas_width = nat (mathRound (of_nat nw * scaleOf nw nh)),
             canvas_height = nat (mathRound (of_nat nh * scaleOf nw nh)),
             canvas_data = grayscaleContrast
               (drawn (nat (mathRound (of_nat nw * scaleOf nw nh)))
                      (nat (mathRound (of_nat nh * scaleOf nw nh))))\<rparr>"
    unfolding preprocessToPngDataUrl_def Let_def by simp
  with p show ?thesis by blast
qed

text \<open>
  Whenever the normalizer produces a canvas for a picture whose larger dimension exceeds
  2000, the larger dimension of the canvas is 2000, each dimension is the natural one
  times \<open>2000 / max\<close> rounded to the nearest integer, and the pixel data is the
  transformed canvas content.  A picture with both dimensions positive and at most 2000
  keeps its size.  Each pixel becomes the gray value
  \<open>0.299 R + 0.587 G + 0.114 B\<close> under the contrast map \<open>(v - 128) * 1.15 + 128\<close>,
  clamped to 0..255 and stored in the three colour channels, alpha unchanged.
\<close>

lemma normalizer_downscales:
  assumes "2000 < max nw nh" and "preprocessToPngDataUrl drawn nw nh = Inr c"
  shows "max (canvas_width c) (canvas_height c) = 2000
     \<and> \<bar>of_nat (canvas_width c) - of_nat nw * (2000 / of_nat (max nw nh))\<bar> \<le> (1 / 2 :: rat)
     \<and> \<bar>of_nat (canvas_height c) - of_nat nh * (2000 / of_nat (max nw nh))\<bar> \<le> (1 / 2 :: rat)
     \<and> canvas_data c = grayscaleContrast (drawn (canvas_width c) (canvas_height c))"
proof -
  define w where "w = mathRound (of_nat nw * scaleOf nw nh)"
  define h where "h = mathRound (of_nat nh * scaleOf nw nh)"
  have s: "scaleOf nw nh = 2000 / of_nat (max nw nh)" using assms(1) by (rule scaleOf_large)
  from preprocess_Inr [OF assms(2)]
  have wp: "0 < w" and hp: "0 < h"
    and c: "c = \<lparr>canvas_width = nat w, canvas_height = nat h,
                 canvas_data = grayscaleContrast (drawn (nat w) (nat h))\<rparr>"
    unfolding w_def h_def by blast+
  have wl: "w \<le> 2000" unfolding w_def using assms(1) by (intro scaled_le) simp_all
  have hl: "h \<le> 2000" unfolding h_def using assms(1) by (intro scaled_le) simp_all
  have "w = 2000 \<or> h = 2000"
    unfolding w_def h_def using scaled_larger [OF assms(1)]
    by (cases "nw \<le> nh") (simp_all add: max_def)
  with wl hl wp hp have m: "max (nat w) (nat h) = 2000" by (auto simp: max_def)
  have "\<bar>of_int w - of_nat nw * scaleOf nw nh\<bar> \<le> (1 / 2 :: rat)"
    unfolding w_def by (rule mathRound_near)
  with wp have nw: "\<bar>of_nat (nat w) - of_nat nw * scaleOf nw nh\<bar> \<le> (1 / 2 :: rat)"
    by (simp add: of_nat_nat)
  have "\<bar>of_int h - of_nat nh * scaleOf nw nh\<bar> \<le> (1 / 2 :: rat)"
    unfolding h_def by (rule mathRound_near)
  with hp have nh: "\<bar>of_nat (nat h) - of_nat nh * scaleOf nw nh\<bar> \<le> (1 / 2 :: rat)"
    by (simp add: of_nat_nat)
  from m nw nh show ?thesis unfolding c s by simp
qed

lemma normalizer_keeps_small:
  assumes "max nw nh \<le> 2000" and "0 < nw" and "0 < nh"
  shows "preprocessToPngDataUrl drawn nw nh
           = Inr \<lparr>canvas_width = nw, canvas_height = nh,
                  canvas_data = grayscaleContrast (drawn nw nh)\<rparr>"
proof -
  have "mathRound (of_nat nw * scaleOf nw nh) = int nw"
    "mathRound (of_nat nh * scaleOf nw nh) = int nh"
    using mathRound_of_int [of "int nw"] mathRound_of_int [of "int nh"]
    by (simp_all add: scaleOf_small [OF assms(1)])
  then show ?thesis using assms(2,3) by (simp add: preprocessToPngDataUrl_def Let_def)
qed

lemma pixel_transform:
  "grayscaleContrast (r # g # b # a # rest) =
     (let gray = 0.299 * of_nat (unat r) + 0.587 * of_nat (unat g) + 0.114 * of_nat (unat b);
          v = toUint8Clamp (max 0 (min 255 ((gray - 128) * 1.15 + 128)))
      in v # v # v # a # grayscaleContrast rest)"
  by (simp add: Let_def)

text \<open>
  The specification's example, a picture of 4000 by 2000 pixels, and one pixel: the gray
  value of (100, 50, 30) is 62.67, which the contrast map takes to 52.8705, stored as 53.
\<close>

lemma normalizer_example:
  "preprocessToPngDataUrl drawn 4000 2000
     = Inr \<lparr>canvas_width = 2000, canvas_height = 1000,
            canvas_data = grayscaleContrast (drawn 2000 1000)\<rparr>"
proof -
  have s: "scaleOf 4000 2000 = 1 / 2" by (simp add: scaleOf_def)
  have "mathRound (of_nat 4000 * (1 / 2)) = 2000" "mathRound (of_nat 2000 * (1 / 2)) = 1000"
    by (simp_all add: mathRound_def floor_eq_iff)
  then show ?thesis unfolding preprocessToPngDataUrl_def Let_def s by simp
qed

lemma pixel_example: "grayscaleContrast [100, 50, 30, 255] = [53, 53, 53, 255]"
  by code_simp

text \<open>
  Claim C9 fails on the code for a thin picture: for 4001 by 1 pixels the scaled height
  \<open>Math.round(2000 / 4001)\<close> is 0, \<open>getImageData\<close> throws, and no output is produced,
  where the claim promises an output whose larger dimension is 2000 for every picture
  whose larger dimension exceeds 2000.
\<close>

theorem normalizer_fails_on_thin_image:
  "(2000 :: nat) < max 4001 1 \<and> mathRound (1 * scaleOf 4001 1) = 0
   \<and> preprocessToPngDataUrl drawn 4001 1 = Inl IndexSizeError"
proof -
  have r: "mathRound (1 * scaleOf 4001 1) = 0"
    unfolding mathRound_def scaleOf_def Let_def by (simp add: floor_eq_iff)
  then have "preprocessToPngDataUrl drawn 4001 1 = Inl IndexSizeError"
    unfolding preprocessToPngDataUrl_def Let_def by simp
  with r show ?thesis by simp
qed

end
